theory Spec2Isabelle
  imports Main "HOL-Library.Sublist"
begin

section \<open>Text and the library functions main.go calls\<close>

text \<open>
  A Go \<open>string\<close> is a sequence of bytes; it is modelled as a \<open>string\<close> (a list of \<open>char\<close>,
  one \<open>char\<close> per byte). The functions of this section are those of Go's \<open>strings\<close> and
  \<open>fmt\<close> packages that main.go calls, restricted to the way it calls them.
\<close>

definition nl :: char where
  "nl = CHR 0x0A"

definition dq :: char where
  "dq = CHR 0x22"

definition ESC :: char where
  "ESC = CHR 0x1B"

text \<open>\<open>strings.Split(s, sep)\<close> for a separator of one byte: one more piece than separators.\<close>

fun Split :: "string \<Rightarrow> char \<Rightarrow> string list" where
  "Split [] sep = [[]]"
| "Split (c # cs) sep =
     (if c = sep then [] # Split cs sep
      else (c # hd (Split cs sep)) # tl (Split cs sep))"

text \<open>\<open>strings.Join(elems, sep)\<close>.\<close>

fun Join :: "string list \<Rightarrow> string \<Rightarrow> string" where
  "Join [] sep = []"
| "Join [l] sep = l"
| "Join (l # ls) sep = l @ sep @ Join ls sep"

text \<open>\<open>strings.HasSuffix(s, suffix)\<close>.\<close>

definition HasSuffix :: "string \<Rightarrow> string \<Rightarrow> bool" where
  "HasSuffix s suf \<longleftrightarrow>
     length s \<ge> length suf \<and> drop (length s - length suf) s = suf"

text \<open>\<open>strings.Count(s, sep)\<close> for a separator of one byte.\<close>

definition Count :: "string \<Rightarrow> char \<Rightarrow> nat" where
  "Count s sep = length (filter (\<lambda>c. c = sep) s)"

text \<open>The verb \<open>%d\<close> of \<open>fmt\<close>: an integer in decimal.\<close>

definition digit :: "nat \<Rightarrow> char" where
  "digit d = ''0123456789'' ! d"

fun decimal :: "nat \<Rightarrow> string" where
  "decimal n = (if n < 10 then [digit n] else decimal (n div 10) @ [digit (n mod 10)])"

declare decimal.simps [simp del]

definition itoa :: "int \<Rightarrow> string" where
  "itoa i = (if i < 0 then CHR ''-'' # decimal (nat (- i)) else decimal (nat i))"

subsection \<open>strings.TrimSpace\<close>

text \<open>
  \<open>strings.TrimSpace\<close> removes the leading and the trailing white space of a string, as
  Unicode defines it (\<open>unicode.IsSpace\<close>). The string is read as UTF-8, from the left for
  the leading runes and from the right for the trailing ones; a byte that starts no valid
  encoding is the rune U+FFFD, which is no space. A string therefore starts (ends) with
  a space rune exactly when the UTF-8 encoding of one of the white-space code points is
  a prefix (suffix) of it. \<open>space_runes\<close> lists these encodings: the six ASCII spaces,
  U+0085, U+00A0, U+1680, U+2000 to U+200A, U+2028, U+2029, U+202F, U+205F and U+3000.
\<close>

definition space_runes :: "string list" where
  "space_runes =
     [[CHR 0x09], [CHR 0x0A], [CHR 0x0B], [CHR 0x0C], [CHR 0x0D], [CHR 0x20],
      [CHR 0xC2, CHR 0x85], [CHR 0xC2, CHR 0xA0],
      [CHR 0xE1, CHR 0x9A, CHR 0x80],
      [CHR 0xE2, CHR 0x80, CHR 0x80], [CHR 0xE2, CHR 0x80, CHR 0x81],
      [CHR 0xE2, CHR 0x80, CHR 0x82], [CHR 0xE2, CHR 0x80, CHR 0x83],
      [CHR 0xE2, CHR 0x80, CHR 0x84], [CHR 0xE2, CHR 0x80, CHR 0x85],
      [CHR 0xE2, CHR 0x80, CHR 0x86], [CHR 0xE2, CHR 0x80, CHR 0x87],
      [CHR 0xE2, CHR 0x80, CHR 0x88], [CHR 0xE2, CHR 0x80, CHR 0x89],
      [CHR 0xE2, CHR 0x80, CHR 0x8A],
      [CHR 0xE2, CHR 0x80, CHR 0xA8], [CHR 0xE2, CHR 0x80, CHR 0xA9],
      [CHR 0xE2, CHR 0x80, CHR 0xAF],
      [CHR 0xE2, CHR 0x81, CHR 0x9F],
      [CHR 0xE3, CHR 0x80, CHR 0x80]]"

text \<open>
  \<open>leading ws s\<close> is the first of the encodings \<open>ws\<close> that \<open>s\<close> starts with, if any;
  \<open>drop_leading ws s\<close> removes such encodings from the left until none is left.
\<close>

definition leading :: "string list \<Rightarrow> string \<Rightarrow> string option" where
  "leading ws s = find (\<lambda>w. w \<noteq> [] \<and> take (length w) s = w) ws"

function drop_leading :: "string list \<Rightarrow> string \<Rightarrow> string" where
  "drop_leading ws s =
     (case leading ws s of
        None \<Rightarrow> s
      | Some w \<Rightarrow> drop_leading ws (drop (length w) s))"
  by pat_completeness auto
termination
proof (relation "measure (\<lambda>(ws, s). length s)")
  show "wf (measure (\<lambda>(ws, s). length s))" by simp
next
  fix ws :: "string list" and s w :: string
  assume "leading ws s = Some w"
  then have "w \<noteq> []" and "take (length w) s = w"
    by (auto simp: leading_def find_Some_iff)
  then have "s \<noteq> []" by auto
  with \<open>w \<noteq> []\<close> show "((ws, drop (length w) s), (ws, s)) \<in> measure (\<lambda>(ws, s). length s)"
    by (cases w) auto
qed

declare drop_leading.simps [simp del]

definition TrimLeftSpace :: "string \<Rightarrow> string" where
  "TrimLeftSpace s = drop_leading space_runes s"

definition TrimRightSpace :: "string \<Rightarrow> string" where
  "TrimRightSpace s = rev (drop_leading (map rev space_runes) (rev s))"

definition TrimSpace :: "string \<Rightarrow> string" where
  "TrimSpace s = TrimRightSpace (TrimLeftSpace s)"

section \<open>The text transforms of main.go\<close>

subsection \<open>stripANSI\<close>

text \<open>
  \<open>stripANSI\<close> replaces every match of the regular expression
  \<^verbatim>\<open>\x1b\[[0-9;]*[a-zA-Z]\<close> by the empty string. \<open>ReplaceAllString\<close> scans from the left,
  takes the leftmost match at each step and goes on behind it. The two character classes
  are disjoint, so the greedy run of \<^verbatim>\<open>[0-9;]\<close> is the only candidate at a position:
  \<open>match_at s\<close> is the rest of \<open>s\<close> behind a match that starts at its first byte.
\<close>

definition is_param :: "char \<Rightarrow> bool" where
  "is_param c \<longleftrightarrow> (48 \<le> (of_char c :: nat) \<and> (of_char c :: nat) \<le> 57) \<or> c = CHR '';''"

definition is_letter :: "char \<Rightarrow> bool" where
  "is_letter c \<longleftrightarrow>
     (97 \<le> (of_char c :: nat) \<and> (of_char c :: nat) \<le> 122) \<or>
     (65 \<le> (of_char c :: nat) \<and> (of_char c :: nat) \<le> 90)"

definition letter_next :: "string \<Rightarrow> string option" where
  "letter_next s = (case s of [] \<Rightarrow> None | l # r \<Rightarrow> if is_letter l then Some r else None)"

definition match_at :: "string \<Rightarrow> string option" where
  "match_at s =
     (case s of
        c1 # c2 # r \<Rightarrow>
          if c1 = ESC \<and> c2 = CHR ''[''
          then letter_next (dropWhile is_param r)
          else None
      | _ \<Rightarrow> None)"

function stripANSI :: "string \<Rightarrow> string" where
  "stripANSI [] = []"
| "stripANSI (c # cs) =
     (case match_at (c # cs) of
        Some r \<Rightarrow> stripANSI r
      | None \<Rightarrow> c # stripANSI cs)"
  by pat_completeness auto
termination
proof (relation "measure length")
  show "wf (measure length)" by simp
next
  fix c :: char and cs r :: string
  assume m: "match_at (c # cs) = Some r"
  then obtain c2 r0 l where cs: "cs = c2 # r0" and d: "dropWhile is_param r0 = l # r"
    by (auto simp: match_at_def letter_next_def split: list.splits if_splits)
  have "length (dropWhile is_param r0) \<le> length r0"
    by (rule length_dropWhile_le)
  with d cs show "(r, c # cs) \<in> measure length" by simp
next
  fix c :: char and cs :: string
  show "(cs, c # cs) \<in> measure length" by simp
qed

subsection \<open>applyLineFilters and limitLines\<close>

definition applyLineFilters :: "string \<Rightarrow> int \<Rightarrow> int \<Rightarrow> string" where
  "applyLineFilters output headLines tailLines =
     (if headLines \<le> 0 \<and> tailLines \<le> 0 then output
      else
        let lines = Split output nl;
            lines = (if headLines > 0 \<and> headLines < int (length lines)
                     then take (nat headLines) lines else lines);
            lines = (if tailLines > 0 \<and> tailLines < int (length lines)
                     then drop (length lines - nat tailLines) lines else lines)
        in Join lines [nl])"

definition limitLines :: "string \<Rightarrow> int \<Rightarrow> string" where
  "limitLines output maxLines =
     (if maxLines \<le> 0 then output
      else
        let lines = Split output nl in
        if int (length lines) \<le> maxLines then output
        else Join (take (nat maxLines) lines) [nl])"

section \<open>Configuration and environment\<close>

text \<open>
  The struct \<open>Config\<close>, as \<open>parseFlags\<close> fills it. The field \<open>file\<close> is \<open>filePath\<close> here, \<open>append\<close> is
  \<open>appendMode\<close> and \<open>help\<close> is \<open>helpFlag\<close>; Go's \<open>int\<close> is an \<open>int\<close>
  (the program compares, prints and slices with these values and never adds to them).
\<close>

record Config =
  headLines :: int
  tailLines :: int
  quietLines :: int
  quiet :: bool
  filePath :: string
  clear :: bool
  stderr :: bool
  appendMode :: bool
  noClipboard :: bool
  verbose :: bool
  noTemp :: bool
  raw :: bool
  delay :: int
  trim :: bool
  helpFlag :: bool
  showVersion :: bool

text \<open>
  \<open>quietFlag.Set\<close>, which the flag package calls with \<open>"true"\<close> for a bare \<open>-q\<close> (the flag
  is a boolean flag) and with the text behind the equals sign for \<open>-q=X\<close>. The scan of
  a decimal by \<open>fmt.Sscanf\<close> is the parameter \<open>scan\<close>.
\<close>

definition quietFlag_Set ::
  "(string \<Rightarrow> string + int) \<Rightarrow> string \<Rightarrow> Config \<Rightarrow> string option \<times> Config" where
  "quietFlag_Set scan v config =
     (let config = config\<lparr>quiet := True\<rparr> in
      if v = [] \<or> v = ''true'' then (None, config\<lparr>quietLines := 0\<rparr>)
      else
        case scan v of
          Inl err \<Rightarrow> (Some err, config)
        | Inr lines \<Rightarrow> (None, config\<lparr>quietLines := lines\<rparr>))"

text \<open>
  An \<open>error\<close> value is modelled by its message (what \<open>%v\<close> prints). A child process
  either cannot be started (\<open>cmd.Run\<close> fails in \<open>cmd.Start\<close>: the executable is not found
  or cannot be launched) or runs to its end: then it has written chunks to its standard
  output and standard error, in this order, and \<open>cmd.Wait\<close> reports no error for exit
  status 0 and an error otherwise.
\<close>

type_synonym error = string

datatype stream = ToStdout | ToStderr

datatype proc_result =
    StartFailed error
  | Completed "(stream \<times> string) list" "error option"

text \<open>
  The environment of one run. \<open>child\<close> is what running an argument vector does;
  \<open>clock\<close> is \<open>time.Now().Format("2006-01-02 15:04:05")\<close>; \<open>lookPath name\<close> tells
  whether \<open>exec.LookPath\<close> finds \<open>name\<close>; \<open>helper tool args stdin\<close> is the run of a
  clipboard helper (the error of \<open>cmd.Run\<close> and what the helper wrote to its standard
  error); \<open>mkdirAll path\<close> is the error of \<open>os.MkdirAll(filepath.Dir(path), 0755)\<close>;
  \<open>openFile path appendMode\<close> is the error of \<open>os.OpenFile\<close> with the flags of that
  mode; \<open>writeString path content\<close> is \<open>None\<close> when \<open>f.WriteString\<close> writes all of
  \<open>content\<close>, and \<open>Some (n, e)\<close> when it fails with \<open>e\<close> after \<open>n\<close> bytes; \<open>files\<close> maps
  a path to the bytes of the file there. The child and the helpers are taken not to
  touch the target file.
\<close>

record world =
  child :: "string list \<Rightarrow> proc_result"
  clock :: string
  lookPath :: "string \<Rightarrow> bool"
  helper :: "string \<Rightarrow> string list \<Rightarrow> string \<Rightarrow> error option \<times> string"
  mkdirAll :: "string \<Rightarrow> error option"
  openFile :: "string \<Rightarrow> bool \<Rightarrow> error option"
  writeString :: "string \<Rightarrow> string \<Rightarrow> (nat \<times> error) option"
  files :: "string \<rightharpoonup> string"

text \<open>
  What a run has done so far: the environment (with the files as they are now), the bytes
  printed to \<open>os.Stdout\<close> and to \<open>os.Stderr\<close>, and the clipboard helpers started, each
  with its arguments and the text streamed to its standard input.
\<close>

record state =
  env :: world
  os_stdout :: string
  os_stderr :: string
  helper_runs :: "(string \<times> string list \<times> string) list"

definition start :: "world \<Rightarrow> state" where
  "start w = \<lparr>env = w, os_stdout = [], os_stderr = [], helper_runs = []\<rparr>"

definition Print :: "string \<Rightarrow> state \<Rightarrow> state" where
  "Print s st = st\<lparr>os_stdout := os_stdout st @ s\<rparr>"

definition EPrint :: "string \<Rightarrow> state \<Rightarrow> state" where
  "EPrint s st = st\<lparr>os_stderr := os_stderr st @ s\<rparr>"

section \<open>The command executor\<close>

text \<open>
  \<open>cmd_Run p captureStderr\<close> is the content of the buffers \<open>stdout\<close> and \<open>stderr\<close> of
  \<open>executeCommand\<close> after \<open>cmd.Run()\<close>, and the error of \<open>cmd.Run()\<close>: with
  \<open>captureStderr\<close> both streams of the child are the one buffer \<open>stdout\<close>.
\<close>

definition written :: "stream \<Rightarrow> (stream \<times> string) list \<Rightarrow> string" where
  "written fd chunks = concat (map snd (filter (\<lambda>c. fst c = fd) chunks))"

definition cmd_Run :: "proc_result \<Rightarrow> bool \<Rightarrow> string \<times> string \<times> error option" where
  "cmd_Run p captureStderr =
     (case p of
        StartFailed e \<Rightarrow> ([], [], Some e)
      | Completed chunks werr \<Rightarrow>
          if captureStderr then (concat (map snd chunks), [], werr)
          else (written ToStdout chunks, written ToStderr chunks, werr))"

text \<open>\<open>executeCommand\<close> returns \<open>None\<close> where the Go code panics (\<open>args[0]\<close> of no arguments).\<close>

definition executeCommand :: "world \<Rightarrow> string list \<Rightarrow> bool \<Rightarrow> (string \<times> error option) option" where
  "executeCommand w args captureStderr =
     (if args = [] then None
      else
        case cmd_Run (child w args) captureStderr of
          (stdout, stderr_buf, Some err) \<Rightarrow>
            if captureStderr then Some (stdout, None)
            else if length stderr_buf > 0
            then Some (stdout, Some (err @ '' (stderr: '' @ stderr_buf @ '')''))
            else Some (stdout, Some err)
        | (stdout, stderr_buf, None) \<Rightarrow> Some (stdout, None))"

section \<open>The file persister\<close>

definition writeToFile :: "world \<Rightarrow> string \<Rightarrow> string \<Rightarrow> bool \<Rightarrow> error option \<times> world" where
  "writeToFile w path content appendFlag =
     (case mkdirAll w path of
        Some e \<Rightarrow> (Some e, w)
      | None \<Rightarrow>
          (case openFile w path appendFlag of
             Some e \<Rightarrow> (Some e, w)
           | None \<Rightarrow>
               let before = (case files w path of None \<Rightarrow> [] | Some c \<Rightarrow> c);
                   opened = (if appendFlag then before else [])
               in case writeString w path content of
                    None \<Rightarrow> (None, w\<lparr>files := (files w)(path \<mapsto> opened @ content)\<rparr>)
                  | Some (n, e) \<Rightarrow>
                      (Some e, w\<lparr>files := (files w)(path \<mapsto> opened @ take n content)\<rparr>)))"

text \<open>The bytes of the file at a path before a run; none when there is no file.\<close>

definition existing :: "world \<Rightarrow> string \<Rightarrow> string" where
  "existing w path = (case files w path of None \<Rightarrow> [] | Some c \<Rightarrow> c)"

section \<open>The clipboard publisher\<close>

definition detectClipboardTool :: "world \<Rightarrow> string \<times> string list" where
  "detectClipboardTool w =
     (if lookPath w ''wl-copy'' then (''wl-copy'', [])
      else if lookPath w ''xclip'' then (''xclip'', [''-selection'', ''clipboard''])
      else if lookPath w ''xsel'' then (''xsel'', [''--clipboard'', ''--input''])
      else ([], []))"

text \<open>
  \<open>copyToClipboard\<close> and \<open>clearClipboard\<close> return their error and the helper runs they
  started.
\<close>

definition copyToClipboard ::
  "world \<Rightarrow> string \<Rightarrow> error option \<times> (string \<times> string list \<times> string) list" where
  "copyToClipboard w content =
     (case detectClipboardTool w of (tool, args) \<Rightarrow>
        if tool = [] then (Some ''no clipboard tool found (tried: wl-copy, xclip, xsel)'', [])
        else
          case helper w tool args content of
            (Some e, stderr_buf) \<Rightarrow>
              (Some (''clipboard command failed: '' @ e @ '' (stderr: '' @ stderr_buf @ '')''),
               [(tool, args, content)])
          | (None, stderr_buf) \<Rightarrow> (None, [(tool, args, content)]))"

definition clearClipboard ::
  "world \<Rightarrow> error option \<times> (string \<times> string list \<times> string) list" where
  "clearClipboard w =
     (case detectClipboardTool w of (tool, args) \<Rightarrow>
        if tool = [] then (Some ''no clipboard tool found'', [])
        else (fst (helper w tool args []), [(tool, args, [])]))"

section \<open>The orchestrator\<close>

definition version :: string where
  "version = ''00.00.001''"

definition helpText :: string where
  "helpText = Join
     [''cb - Command output clipboard manager'',
      [],
      ''Usage:'',
      ''  cb [flags] <command> [args...]'',
      [],
      ''Description:'',
      ''  Run any command, capture its output, save to file, and copy to clipboard.'',
      [],
      ''Flags:'',
      ''  -h X              Copy only the head of output by X lines'',
      ''  -t X              Copy only the tail of output by X lines'',
      ''  -q [X]            Suppress stdout entirely, or show only X lines'',
      ''  -f FILE           Write output to specific file instead of /tmp/cb.txt'',
      ''  -c, --clear       Clear clipboard before writing'',
      ''  -e, --error       Copy stderr instead of stdout'',
      ''  -a, --append      Append output to file instead of overwriting'',
      ''  -n                Disable clipboard, only save to file'',
      ''  -v, --verbose     Show what was copied / debug info'',
      ''  --no-temp         Skip writing to /tmp entirely'',
      ''  -r, --raw         Preserve terminal formatting/ANSI codes'',
      ''  --delay N         Wait N seconds before copying output'',
      ''  --trim            Trim leading and trailing whitespace'',
      ''  --version         Show program version'',
      ''  --help            Display this help message'',
      [],
      ''Examples:'',
      ''  cb echo '' @ [dq] @ ''hello world'' @ [dq],
      ''  cb ls -l /home/user'',
      ''  cb -h 10 dmesg'',
      ''  cb -f output.txt -v ps aux'',
      ''  cb -e -v somecommand'',
      [],
      ''Notes:'',
      ''  - Requires wl-copy (Wayland) or xclip/xsel (X11) for clipboard support'',
      ''  - Output is saved with timestamp header: [date time '' @ [dq] @ ''command'' @ [dq] @ '']:'']
     [nl]"

definition printHelp :: "state \<Rightarrow> state" where
  "printHelp st = Print (helpText @ [nl]) st"

text \<open>Lines 96 to 102 of main.go: the delay (the sleep itself changes nothing here).\<close>

definition delay_step :: "Config \<Rightarrow> state \<Rightarrow> state" where
  "delay_step config st =
     (if delay config > 0
      then (if verbose config
            then Print (''Waiting '' @ itoa (delay config) @ '' seconds...'' @ [nl]) st
            else st)
      else st)"

text \<open>Lines 104 to 115: strip, trim, head and tail.\<close>

definition transform :: "Config \<Rightarrow> string \<Rightarrow> string" where
  "transform config output =
     (let output = (if \<not> raw config then stripANSI output else output);
          output = (if trim config then TrimSpace output else output)
      in applyLineFilters output (headLines config) (tailLines config))"

text \<open>Lines 117 to 121: the record that is written to the file.\<close>

definition header :: "string \<Rightarrow> string list \<Rightarrow> string" where
  "header timestamp args =
     ''['' @ timestamp @ '' '' @ [dq] @ Join args '' '' @ [dq] @ '']:'' @ [nl]"

definition fullOutput :: "string \<Rightarrow> string list \<Rightarrow> string \<Rightarrow> string" where
  "fullOutput timestamp args output = header timestamp args @ output @ [nl]"

definition targetFile :: "Config \<Rightarrow> string" where
  "targetFile config = (if filePath config = [] then ''/tmp/cb.txt'' else filePath config)"

text \<open>
  Lines 123 to 138: the file step. \<open>Inl (code, st)\<close> is \<open>os.Exit(code)\<close> in state \<open>st\<close>;
  \<open>Inr st\<close> goes on.
\<close>

definition persist :: "Config \<Rightarrow> string list \<Rightarrow> string \<Rightarrow> state \<Rightarrow> (int \<times> state) + state" where
  "persist config args output st =
     (if \<not> noTemp config
      then
        case writeToFile (env st) (targetFile config)
               (fullOutput (clock (env st)) args output) (appendMode config) of
          (Some e, w) \<Rightarrow>
            Inl (1, EPrint (''Error writing to file: '' @ e @ [nl]) (st\<lparr>env := w\<rparr>))
        | (None, w) \<Rightarrow>
            Inr (if verbose config
                 then Print (''Output written to '' @ targetFile config @ [nl]) (st\<lparr>env := w\<rparr>)
                 else st\<lparr>env := w\<rparr>)
      else Inr st)"

text \<open>Lines 140 to 157: the clipboard step.\<close>

definition clear_step :: "Config \<Rightarrow> state \<Rightarrow> state" where
  "clear_step config st =
     (if clear config
      then
        case clearClipboard (env st) of
          (Some e, runs) \<Rightarrow>
            (if verbose config
             then EPrint (''Warning: could not clear clipboard: '' @ e @ [nl])
                    (st\<lparr>helper_runs := helper_runs st @ runs\<rparr>)
             else st\<lparr>helper_runs := helper_runs st @ runs\<rparr>)
        | (None, runs) \<Rightarrow> st\<lparr>helper_runs := helper_runs st @ runs\<rparr>
      else st)"

definition publish :: "Config \<Rightarrow> string \<Rightarrow> state \<Rightarrow> (int \<times> state) + state" where
  "publish config output st =
     (if \<not> noClipboard config
      then
        let st = clear_step config st in
        case copyToClipboard (env st) output of
          (Some e, runs) \<Rightarrow>
            Inl (1, EPrint (''Error copying to clipboard: '' @ e @ [nl])
                      (st\<lparr>helper_runs := helper_runs st @ runs\<rparr>))
        | (None, runs) \<Rightarrow>
            Inr (if verbose config
                 then Print (''Copied '' @ itoa (int (Count output nl) + 1)
                               @ '' lines to clipboard'' @ [nl])
                        (st\<lparr>helper_runs := helper_runs st @ runs\<rparr>)
                 else st\<lparr>helper_runs := helper_runs st @ runs\<rparr>)
      else Inr st)"

text \<open>Lines 159 to 176: what is echoed to the terminal.\<close>

definition echo :: "Config \<Rightarrow> string \<Rightarrow> state \<Rightarrow> state" where
  "echo config output st =
     (if quiet config \<and> quietLines config = 0 then st
      else
        let printOutput = (if quietLines config > 0
                           then limitLines output (quietLines config) else output)
        in if printOutput \<noteq> []
           then (let st = Print printOutput st
                 in if \<not> HasSuffix printOutput [nl] then Print [nl] st else st)
           else st)"

text \<open>
  \<open>main\<close>: the exit status and the final state; \<open>None\<close> is a panic. \<open>config\<close> is the
  result of \<open>parseFlags()\<close> and \<open>args\<close> that of \<open>flag.Args()\<close>.
\<close>

definition main :: "Config \<Rightarrow> string list \<Rightarrow> world \<Rightarrow> (int \<times> state) option" where
  "main config args w =
     (let st = start w in
      if helpFlag config then Some (0, printHelp st)
      else if showVersion config then Some (0, Print (''cb version '' @ version @ [nl]) st)
      else if length args = 0
      then Some (1, printHelp (EPrint (''Error: no command specified'' @ [nl]) st))
      else
        case executeCommand w args (stderr config) of
          None \<Rightarrow> None
        | Some (output, Some e) \<Rightarrow>
            Some (1, EPrint (''Error executing command: '' @ e @ [nl]) st)
        | Some (output, None) \<Rightarrow>
            let st = delay_step config st;
                output = transform config output
            in case persist config args output st of
                 Inl x \<Rightarrow> Some x
               | Inr st \<Rightarrow>
                   (case publish config output st of
                      Inl x \<Rightarrow> Some x
                    | Inr st \<Rightarrow> Some (0, echo config output st)))"

text \<open>What is seen of a run: its exit status, the terminal, the files and the helpers.\<close>

definition exit_status :: "(int \<times> state) option \<Rightarrow> int option" where
  "exit_status r = (case r of None \<Rightarrow> None | Some (code, st) \<Rightarrow> Some code)"

definition printed :: "(int \<times> state) option \<Rightarrow> string" where
  "printed r = (case r of None \<Rightarrow> [] | Some (code, st) \<Rightarrow> os_stdout st)"

definition file_after :: "(int \<times> state) option \<Rightarrow> string \<Rightarrow> string option" where
  "file_after r path = (case r of None \<Rightarrow> None | Some (code, st) \<Rightarrow> files (env st) path)"

definition runs_after :: "(int \<times> state) option \<Rightarrow> (string \<times> string list \<times> string) list" where
  "runs_after r = (case r of None \<Rightarrow> [] | Some (code, st) \<Rightarrow> helper_runs st)"

section \<open>Sample configurations and environments\<close>

text \<open>The configuration of a run with no flags, and the same with \<open>-r\<close>.\<close>

definition no_flags :: Config where
  "no_flags =
     \<lparr>headLines = 0, tailLines = 0, quietLines = 0, quiet = False, filePath = [],
      clear = False, stderr = False, appendMode = False, noClipboard = False,
      verbose = False, noTemp = False, raw = False, delay = 0, trim = False,
      helpFlag = False, showVersion = False\<rparr>"

definition raw_config :: Config where
  "raw_config = no_flags\<lparr>raw := True\<rparr>"

text \<open>Runs with \<open>-e\<close>, with \<open>-a\<close>, with \<open>-q\<close>, with \<open>-q -v\<close> and with \<open>-q=2\<close>.\<close>

definition capture_config :: Config where
  "capture_config = no_flags\<lparr>stderr := True\<rparr>"

definition append_config :: Config where
  "append_config = no_flags\<lparr>appendMode := True\<rparr>"

definition quiet_config :: Config where
  "quiet_config = no_flags\<lparr>quiet := True\<rparr>"

definition quiet_verbose_config :: Config where
  "quiet_verbose_config = no_flags\<lparr>quiet := True, verbose := True\<rparr>"

definition limit_config :: Config where
  "limit_config = no_flags\<lparr>quiet := True, quietLines := 2\<rparr>"

text \<open>A run with \<open>-v --delay 3\<close>.\<close>

definition verbose_config :: Config where
  "verbose_config = no_flags\<lparr>verbose := True, delay := 3\<rparr>"

text \<open>
  A machine where \<open>xclip\<close> is the only clipboard helper, every file operation succeeds
  and no file exists yet. \<open>echo hello\<close> prints a line, \<open>true\<close> prints nothing, \<open>fail\<close>
  writes to both streams and exits with status 1, and nothing else can be started.
\<close>

definition demo_child :: "string list \<Rightarrow> proc_result" where
  "demo_child args =
     (if args = [''echo'', ''hello''] then Completed [(ToStdout, ''hello'' @ [nl])] None
      else if args = [''true''] then Completed [] None
      else if args = [''fail'']
      then Completed [(ToStdout, ''out''), (ToStderr, ''bad''), (ToStdout, ''more'')]
             (Some ''exit status 1'')
      else StartFailed ''executable file not found in $PATH'')"

definition demo_world :: world where
  "demo_world =
     \<lparr>child = demo_child,
      clock = ''2025-11-17 19:41:29'',
      lookPath = (\<lambda>name. name = ''xclip''),
      helper = (\<lambda>tool args input. (None, [])),
      mkdirAll = (\<lambda>path. None),
      openFile = (\<lambda>path appendFlag. None),
      writeString = (\<lambda>path content. None),
      files = Map.empty\<rparr>"

text \<open>
  The same machine where every command prints three lines, and the same machine after
  \<open>echo hello\<close> has run there with no flags.
\<close>

definition seq_world :: world where
  "seq_world =
     demo_world\<lparr>child :=
       (\<lambda>args. Completed [(ToStdout, [CHR ''1'', nl, CHR ''2'', nl, CHR ''3''])] None)\<rparr>"

definition second_world :: world where
  "second_world =
     demo_world\<lparr>files := file_after (main no_flags [''echo'', ''hello''] demo_world)\<rparr>"

text \<open>
  The sample machine with no clipboard helper at all, where the clipboard step of every
  run fails, and that machine after \<open>echo hello\<close> has run there with no flags.
\<close>

definition no_helper_world :: world where
  "no_helper_world = demo_world\<lparr>lookPath := (\<lambda>name. False)\<rparr>"

definition after_failed_world :: world where
  "after_failed_world =
     no_helper_world\<lparr>files := file_after (main no_flags [''echo'', ''hello''] no_helper_world)\<rparr>"

section \<open>The specification's words, for comparison\<close>

text \<open>
  The head stage and the tail stage as the specification words them, on any list of
  lines: keep the first \<open>H\<close> lines when \<open>H > 0\<close> and \<open>H\<close> is less than the number of
  lines, keep the last \<open>T\<close> lines when \<open>T > 0\<close> and \<open>T\<close> is less than the number of
  lines, and change nothing otherwise.
\<close>

definition keep_first :: "int \<Rightarrow> 'a list \<Rightarrow> 'a list" where
  "keep_first H L = (if H > 0 \<and> H < int (length L) then take (nat H) L else L)"

definition keep_last :: "int \<Rightarrow> 'a list \<Rightarrow> 'a list" where
  "keep_last T L = (if T > 0 \<and> T < int (length L) then drop (length L - nat T) L else L)"

text \<open>The clipboard helpers in the order of their priority, each with its arguments.\<close>

definition candidates :: "(string \<times> string list) list" where
  "candidates =
     [(''wl-copy'', []),
      (''xclip'', [''-selection'', ''clipboard'']),
      (''xsel'', [''--clipboard'', ''--input''])]"

text \<open>
  An escape sequence as the specification words it: ESC, an opening bracket, a run of
  digits and semicolons, one ASCII letter. \<open>interspersed g t\<close>: the text \<open>t\<close> is \<open>g\<close> with
  escape sequences put in at any places (before, between and behind its bytes, several
  in a row too). \<open>escape_free g\<close>: no match of the regular expression starts at any
  place of \<open>g\<close>; by \<open>escape_free_iff\<close> below, \<open>g\<close> has no escape sequence as a substring.
\<close>

fun escape_seq :: "string \<Rightarrow> bool" where
  "escape_seq (c1 # c2 # r) \<longleftrightarrow>
     c1 = ESC \<and> c2 = CHR ''['' \<and> r \<noteq> [] \<and> list_all is_param (butlast r) \<and> is_letter (last r)"
| "escape_seq _ \<longleftrightarrow> False"

inductive interspersed :: "string \<Rightarrow> string \<Rightarrow> bool" where
  nothing: "interspersed [] []"
| keep: "interspersed g t \<Longrightarrow> interspersed (c # g) (c # t)"
| escape: "escape_seq e \<Longrightarrow> interspersed g t \<Longrightarrow> interspersed g (e @ t)"

code_pred interspersed .

fun escape_free :: "string \<Rightarrow> bool" where
  "escape_free [] \<longleftrightarrow> True"
| "escape_free (c # cs) \<longleftrightarrow> match_at (c # cs) = None \<and> escape_free cs"

text \<open>
  What the terminal step echoes: nothing when fully quiet (the quiet flag with no line
  count); otherwise the text, cut to the display limit when one is set, and a newline
  behind it when it is not empty and does not end with one.
\<close>

definition terminal_echo :: "Config \<Rightarrow> string \<Rightarrow> string" where
  "terminal_echo config output =
     (if quiet config \<and> quietLines config = 0 then []
      else
        let shown = limitLines output (quietLines config)
        in if shown = [] then [] else if HasSuffix shown [nl] then shown else shown @ [nl])"

text \<open>
  The status lines of verbose mode, in the order of the steps that print them: the delay,
  the file step, the clipboard step. Without \<open>-v\<close> there is none.
\<close>

definition status_lines :: "Config \<Rightarrow> string \<Rightarrow> string" where
  "status_lines config output =
     (if verbose config \<and> delay config > 0
      then ''Waiting '' @ itoa (delay config) @ '' seconds...'' @ [nl] else [])
     @ (if verbose config \<and> \<not> noTemp config
        then ''Output written to '' @ targetFile config @ [nl] else [])
     @ (if verbose config \<and> \<not> noClipboard config
        then ''Copied '' @ itoa (int (Count output nl) + 1) @ '' lines to clipboard'' @ [nl]
        else [])"

text \<open>The file step and the clipboard step of a run do not fail (or are switched off).\<close>

definition file_step_ok :: "Config \<Rightarrow> string list \<Rightarrow> world \<Rightarrow> string \<Rightarrow> bool" where
  "file_step_ok config args w output \<longleftrightarrow>
     noTemp config \<or>
     fst (writeToFile w (targetFile config) (fullOutput (clock w) args output)
            (appendMode config)) = None"

definition clipboard_step_ok :: "Config \<Rightarrow> world \<Rightarrow> string \<Rightarrow> bool" where
  "clipboard_step_ok config w output \<longleftrightarrow>
     noClipboard config \<or> fst (copyToClipboard w output) = None"

section \<open>Properties\<close>

lemma Split_not_Nil: "Split s sep \<noteq> []"
  by (induction s) auto

subsection \<open>Lines\<close>

lemma Join_Cons: "ls \<noteq> [] \<Longrightarrow> Join (l # ls) sep = l @ sep @ Join ls sep"
  by (cases ls) simp_all

lemma Join_Cons_hd: "ls \<noteq> [] \<Longrightarrow> Join ((c # hd ls) # tl ls) sep = c # Join ls sep"
  by (cases ls; cases "tl ls"; simp)

lemma Join_Split: "Join (Split s sep) [sep] = s"
  by (induction s) (simp_all add: Join_Cons Join_Cons_hd Split_not_Nil)

lemma Split_no_sep: "l \<in> set (Split s sep) \<Longrightarrow> sep \<notin> set l"
proof (induction s arbitrary: l)
  case Nil then show ?case by simp
next
  case (Cons c s)
  obtain a as where e: "Split s sep = a # as"
    using Split_not_Nil[of s sep] by (cases "Split s sep") auto
  show ?case
  proof (cases "c = sep")
    case True
    with Cons.prems have "l = [] \<or> l \<in> set (Split s sep)" by simp
    then show ?thesis using Cons.IH by auto
  next
    case False
    with Cons.prems e have "l = c # a \<or> l \<in> set as" by simp
    then show ?thesis using Cons.IH[of a] Cons.IH[of l] e False by auto
  qed
qed

lemma Split_append_no_sep:
  "sep \<notin> set l \<Longrightarrow> Split (l @ sep # r) sep = l # Split r sep"
  by (induction l) auto

lemma Split_no_sep_single: "sep \<notin> set l \<Longrightarrow> Split l sep = [l]"
  by (induction l) auto

lemma Split_Join:
  "ls \<noteq> [] \<Longrightarrow> (\<And>l. l \<in> set ls \<Longrightarrow> sep \<notin> set l) \<Longrightarrow> Split (Join ls [sep]) sep = ls"
proof (induction ls)
  case Nil then show ?case by simp
next
  case (Cons l ls)
  show ?case
  proof (cases ls)
    case Nil
    with Cons.prems show ?thesis by (simp add: Split_no_sep_single)
  next
    case (Cons a as)
    then have ne: "ls \<noteq> []" by simp
    have "Split (Join ls [sep]) sep = ls"
      using Cons.IH[OF ne] Cons.prems(2) by simp
    moreover have "sep \<notin> set l" using Cons.prems(2) by simp
    ultimately show ?thesis using ne by (simp add: Join_Cons Split_append_no_sep)
  qed
qed

lemma keep_first_subset: "set (keep_first H L) \<subseteq> set L"
  by (auto simp: keep_first_def dest: in_set_takeD)

lemma keep_last_subset: "set (keep_last T L) \<subseteq> set L"
  by (auto simp: keep_last_def dest: in_set_dropD)

lemma keep_first_not_Nil: "L \<noteq> [] \<Longrightarrow> keep_first H L \<noteq> []"
  by (auto simp: keep_first_def)

lemma keep_last_not_Nil: "L \<noteq> [] \<Longrightarrow> keep_last T L \<noteq> []"
  by (auto simp: keep_last_def)

lemma applyLineFilters_Join:
  "applyLineFilters s H T = Join (keep_last T (keep_first H (Split s nl))) [nl]"
  by (simp add: applyLineFilters_def keep_first_def keep_last_def Let_def Join_Split)

lemma applyLineFilters_lines:
  "Split (applyLineFilters s H T) nl = keep_last T (keep_first H (Split s nl))"
proof -
  let ?W = "keep_last T (keep_first H (Split s nl))"
  have "?W \<noteq> []" by (simp add: keep_last_not_Nil keep_first_not_Nil Split_not_Nil)
  moreover have "nl \<notin> set l" if "l \<in> set ?W" for l
  proof -
    from that have "l \<in> set (keep_first H (Split s nl))"
      using keep_last_subset[of T "keep_first H (Split s nl)"] by (rule rev_subsetD)
    then have "l \<in> set (Split s nl)"
      using keep_first_subset[of H "Split s nl"] by (rule rev_subsetD)
    then show ?thesis by (rule Split_no_sep)
  qed
  ultimately show ?thesis by (simp add: applyLineFilters_Join Split_Join)
qed

text \<open>
  Claim C3. For every text, with \<open>L\<close> its lines (split at the newline), and all counts
  \<open>H\<close> and \<open>T\<close>: \<open>applyLineFilters\<close> is the join of the window that keeps the first \<open>H\<close>
  lines of \<open>L\<close> when \<open>0 < H < length L\<close> and then the last \<open>T\<close> lines of what is left when
  \<open>T\<close> is positive and less than its length; the lines of the result are exactly that
  window. A positive count is plain slicing (\<open>take H\<close>, then \<open>drop (length - T)\<close>), and a
  count that is zero (or negative) or at least the current number of lines changes
  nothing in its stage.
\<close>

theorem applyLineFilters_head_then_tail:
  "applyLineFilters s H T = Join (keep_last T (keep_first H (Split s nl))) [nl]
   \<and> Split (applyLineFilters s H T) nl = keep_last T (keep_first H (Split s nl))
   \<and> keep_first H L = (if 0 < H then take (nat H) L else L)
   \<and> keep_last T L = (if 0 < T then drop (length L - nat T) L else L)
   \<and> (H \<le> 0 \<or> int (length L) \<le> H \<longrightarrow> keep_first H L = L)
   \<and> (T \<le> 0 \<or> int (length L) \<le> T \<longrightarrow> keep_last T L = L)"
proof (intro conjI)
  show "applyLineFilters s H T = Join (keep_last T (keep_first H (Split s nl))) [nl]"
    by (rule applyLineFilters_Join)
  show "Split (applyLineFilters s H T) nl = keep_last T (keep_first H (Split s nl))"
    by (rule applyLineFilters_lines)
qed (simp_all add: keep_first_def keep_last_def)

theorem applyLineFilters_head_then_tail_witness:
  "applyLineFilters [CHR ''a'', nl, CHR ''b'', nl, CHR ''c'', nl, CHR ''d'', nl, CHR ''e''] 3 2
     = [CHR ''b'', nl, CHR ''c'']
   \<and> Split [CHR ''b'', nl, CHR ''c''] nl = [''b'', ''c'']"
  using applyLineFilters_head_then_tail
          [of "[CHR ''a'', nl, CHR ''b'', nl, CHR ''c'', nl, CHR ''d'', nl, CHR ''e'']" 3 2
              "[]::nat list"]
  by (simp add: keep_first_def keep_last_def nl_def)

subsection \<open>Trimming\<close>

lemma drop_leading_fix: "leading ws s = None \<Longrightarrow> drop_leading ws s = s"
  by (simp add: drop_leading.simps)

lemma leading_drop_leading: "leading ws (drop_leading ws s) = None"
proof (induction ws s rule: drop_leading.induct)
  case (1 ws s)
  show ?case
  proof (cases "leading ws s")
    case None
    then show ?thesis by (simp add: drop_leading.simps)
  next
    case (Some w)
    with 1[OF Some] show ?thesis by (simp add: drop_leading.simps)
  qed
qed

lemma drop_leading_suffix: "\<exists>p. s = p @ drop_leading ws s"
proof (induction ws s rule: drop_leading.induct)
  case (1 ws s)
  show ?case
  proof (cases "leading ws s")
    case None
    then show ?thesis by (simp add: drop_leading.simps)
  next
    case (Some w)
    from 1[OF Some] obtain p where "drop (length w) s = p @ drop_leading ws (drop (length w) s)" by blast
    then have "s = (take (length w) s @ p) @ drop_leading ws (drop (length w) s)"
      by (metis append_assoc append_take_drop_id)
    moreover have "drop_leading ws s = drop_leading ws (drop (length w) s)"
      using Some by (subst drop_leading.simps) simp
    ultimately show ?thesis by metis
  qed
qed

lemma TrimRight_prefix: "\<exists>q. s = TrimRightSpace s @ q"
proof -
  obtain p where "rev s = p @ drop_leading (map rev space_runes) (rev s)"
    using drop_leading_suffix by blast
  then have "s = rev (drop_leading (map rev space_runes) (rev s)) @ rev p"
    by (metis rev_append rev_rev_ident)
  then show ?thesis unfolding TrimRightSpace_def by blast
qed

lemma leading_prefix_None:
  assumes "leading ws (p @ q) = None" shows "leading ws p = None"
proof -
  have "\<not> (w \<noteq> [] \<and> take (length w) p = w)" if "w \<in> set ws" for w
  proof
    assume a: "w \<noteq> [] \<and> take (length w) p = w"
    then have "length w \<le> length p" by (metis length_take min.cobounded2 min_def  nat_le_linear take_all)
    with a have "take (length w) (p @ q) = w" by simp
    with a that assms show False by (auto simp: leading_def find_None_iff)
  qed
  then show ?thesis by (auto simp: leading_def find_None_iff)
qed

lemma TrimRight_idem: "TrimRightSpace (TrimRightSpace s) = TrimRightSpace s"
  by (simp add: TrimRightSpace_def leading_drop_leading drop_leading_fix)

lemma TrimLeft_TrimRight:
  assumes "leading space_runes s = None"
  shows "TrimLeftSpace (TrimRightSpace s) = TrimRightSpace s"
proof -
  obtain q where "s = TrimRightSpace s @ q" using TrimRight_prefix by blast
  with assms have "leading space_runes (TrimRightSpace s) = None"
    by (metis leading_prefix_None)
  then show ?thesis by (simp add: TrimLeftSpace_def drop_leading_fix)
qed

text \<open>
  Claim C9. Trimming is idempotent: for every string \<open>s\<close>, trimming the trimmed string
  changes nothing.
\<close>

theorem TrimSpace_idempotent: "TrimSpace (TrimSpace s) = TrimSpace s"
proof -
  have "leading space_runes (TrimLeftSpace s) = None"
    by (simp add: TrimLeftSpace_def leading_drop_leading)
  then have "TrimLeftSpace (TrimRightSpace (TrimLeftSpace s)) = TrimRightSpace (TrimLeftSpace s)"
    by (rule TrimLeft_TrimRight)
  then show ?thesis by (simp add: TrimSpace_def TrimRight_idem)
qed

theorem TrimSpace_idempotent_witness: "TrimSpace (TrimSpace '' a b  '') = ''a b''"
  using TrimSpace_idempotent [of "'' a b  ''"]
  by (simp add: TrimSpace_def TrimLeftSpace_def TrimRightSpace_def drop_leading.simps
        leading_def space_runes_def)

subsection \<open>Escape sequences\<close>

lemma letter_not_param: "is_letter c \<Longrightarrow> \<not> is_param c"
  by (auto simp: is_letter_def is_param_def)

lemma ESC_not_param: "\<not> is_param ESC"
  by (simp add: is_param_def ESC_def)

lemma ESC_not_letter: "\<not> is_letter ESC"
  by (simp add: is_letter_def ESC_def)

lemma ESC_not_bracket: "ESC \<noteq> CHR ''[''"
  by (simp add: ESC_def)

lemma dropWhile_params:
  "list_all is_param ps \<Longrightarrow> \<not> is_param l \<Longrightarrow> dropWhile is_param (ps @ l # t) = l # t"
  by (induction ps) simp_all

lemma escape_seq_shape:
  "escape_seq e \<longleftrightarrow>
     (\<exists>ps l. e = ESC # CHR ''['' # ps @ [l] \<and> list_all is_param ps \<and> is_letter l)"
proof
  assume a: "escape_seq e"
  then obtain r where e: "e = ESC # CHR ''['' # r" and r: "r \<noteq> []"
      "list_all is_param (butlast r)" "is_letter (last r)"
    by (cases e rule: escape_seq.cases) auto
  from r(1) have "r = butlast r @ [last r]" by simp
  with e r show "\<exists>ps l. e = ESC # CHR ''['' # ps @ [l] \<and> list_all is_param ps \<and> is_letter l"
    by metis
next
  assume "\<exists>ps l. e = ESC # CHR ''['' # ps @ [l] \<and> list_all is_param ps \<and> is_letter l"
  then show "escape_seq e" by auto
qed

lemma match_at_escape: "escape_seq e \<Longrightarrow> match_at (e @ t) = Some t"
  by (auto simp: escape_seq_shape match_at_def letter_next_def dropWhile_params letter_not_param)

lemma escape_seq_ESC: "escape_seq e \<Longrightarrow> \<exists>r. e = ESC # r"
  by (auto simp: escape_seq_shape)

text \<open>
  What the regular expression needs behind ESC and the bracket, a run of parameter bytes
  and a letter, is not brought about by putting escape sequences in.
\<close>

lemma interspersed_letter_next:
  "interspersed g t \<Longrightarrow> letter_next (dropWhile is_param g) = None
     \<Longrightarrow> letter_next (dropWhile is_param t) = None"
proof (induction rule: interspersed.induct)
  case nothing
  then show ?case by simp
next
  case (keep g t c)
  then show ?case by (cases "is_param c") (auto simp: letter_next_def split: if_splits)
next
  case (escape e g t)
  from escape.hyps(1) obtain r where "e = ESC # r" using escape_seq_ESC by blast
  then show ?case by (simp add: ESC_not_param letter_next_def ESC_not_letter)
qed

lemma interspersed_match_at:
  assumes "interspersed g t" and "match_at (c # g) = None"
  shows "match_at (c # t) = None"
  using assms
proof (cases rule: interspersed.cases)
  case nothing
  then show ?thesis by (simp add: match_at_def)
next
  case (keep g' t' c')
  with assms(2) interspersed_letter_next[OF keep(3)] show ?thesis
    by (auto simp: match_at_def split: if_splits)
next
  case (escape e t')
  from escape(2) obtain r where "e = ESC # r" using escape_seq_ESC by blast
  with escape(1) show ?thesis by (simp add: match_at_def ESC_not_bracket)
qed

lemma stripANSI_interspersed:
  "interspersed g t \<Longrightarrow> escape_free g \<Longrightarrow> stripANSI t = g"
proof (induction rule: interspersed.induct)
  case nothing
  then show ?case by simp
next
  case (keep g t c)
  from keep.prems have "match_at (c # g) = None" and "escape_free g" by simp_all
  with keep.hyps keep.IH have "match_at (c # t) = None" and "stripANSI t = g"
    by (simp_all add: interspersed_match_at)
  then show ?case by simp
next
  case (escape e g t)
  from escape.hyps(1) obtain r where e: "e = ESC # r" using escape_seq_ESC by blast
  have "match_at (e @ t) = Some t" using escape.hyps(1) by (rule match_at_escape)
  with e have "stripANSI (e @ t) = stripANSI t" by simp
  with escape.IH escape.prems show ?case by simp
qed

lemma match_at_Some_iff:
  "match_at s = Some q \<longleftrightarrow> (\<exists>e. s = e @ q \<and> escape_seq e)"
proof
  assume m: "match_at s = Some q"
  then obtain r l where s: "s = ESC # CHR ''['' # r" and d: "dropWhile is_param r = l # q"
      and l: "is_letter l"
    by (auto simp: match_at_def letter_next_def split: list.splits if_splits)
  have "r = takeWhile is_param r @ dropWhile is_param r" by simp
  with d have r: "r = takeWhile is_param r @ l # q" by simp
  have "list_all is_param (takeWhile is_param r)"
    by (simp add: list_all_iff) (meson set_takeWhileD)
  with l have "escape_seq (ESC # CHR ''['' # takeWhile is_param r @ [l])"
    by (auto simp: escape_seq_shape)
  moreover have "s = (ESC # CHR ''['' # takeWhile is_param r @ [l]) @ q"
    using s r by simp
  ultimately show "\<exists>e. s = e @ q \<and> escape_seq e" by blast
next
  assume "\<exists>e. s = e @ q \<and> escape_seq e"
  then show "match_at s = Some q" by (auto simp: match_at_escape)
qed

lemma escape_free_iff:
  "escape_free g \<longleftrightarrow> \<not> (\<exists>p e q. g = p @ e @ q \<and> escape_seq e)"
proof (induction g)
  case Nil
  then show ?case by auto
next
  case (Cons c g)
  have "(\<exists>p e q. c # g = p @ e @ q \<and> escape_seq e) \<longleftrightarrow>
        (\<exists>e q. c # g = e @ q \<and> escape_seq e) \<or> (\<exists>p e q. g = p @ e @ q \<and> escape_seq e)"
    (is "?L \<longleftrightarrow> ?A \<or> ?B")
  proof
    assume ?L
    then obtain p e q where pe: "c # g = p @ e @ q" "escape_seq e" by blast
    show "?A \<or> ?B"
    proof (cases p)
      case Nil
      with pe show ?thesis by auto
    next
      case (Cons a p')
      with pe have "g = p' @ e @ q" by simp
      with pe(2) show ?thesis by blast
    qed
  next
    assume "?A \<or> ?B"
    then show ?L
    proof
      assume ?A
      then obtain e q where "c # g = [] @ e @ q" "escape_seq e" by auto
      then show ?L by blast
    next
      assume ?B
      then obtain p e q where "c # g = (c # p) @ e @ q" "escape_seq e" by auto
      then show ?L by blast
    qed
  qed
  moreover have "?A \<longleftrightarrow> match_at (c # g) \<noteq> None"
    using match_at_Some_iff[of "c # g"] by auto
  ultimately show ?case using Cons.IH by simp
qed

text \<open>
  Claim C4. For every escape-free text \<open>G\<close> and every text \<open>T\<close> that is \<open>G\<close> with escape
  sequences (ESC, bracket, digits and semicolons, one letter) interspersed, \<open>stripANSI T\<close>
  is \<open>G\<close>. In raw mode the transform chain skips the stripping: it is the trim and the
  line filters on the captured text as it is, and with those off the captured text
  passes unchanged.
\<close>

theorem stripANSI_interspersed_raw:
  "(escape_free G \<and> interspersed G T \<longrightarrow> stripANSI T = G)
   \<and> (raw config \<longrightarrow>
        transform config captured =
          applyLineFilters (if trim config then TrimSpace captured else captured)
            (headLines config) (tailLines config))
   \<and> (raw config \<and> \<not> trim config \<and> headLines config \<le> 0 \<and> tailLines config \<le> 0 \<longrightarrow>
        transform config captured = captured)"
proof (intro conjI impI)
  assume "escape_free G \<and> interspersed G T"
  then show "stripANSI T = G" by (simp add: stripANSI_interspersed)
next
  assume "raw config"
  then show "transform config captured =
          applyLineFilters (if trim config then TrimSpace captured else captured)
            (headLines config) (tailLines config)"
    by (simp add: transform_def)
next
  assume "raw config \<and> \<not> trim config \<and> headLines config \<le> 0 \<and> tailLines config \<le> 0"
  then show "transform config captured = captured"
    by (simp add: transform_def applyLineFilters_def)
qed

lemma demo_interspersed:
  "interspersed ''ok'' ((ESC # ''[1;31m'') @ CHR ''o'' # (ESC # ''[0m'') @ CHR ''k'' # [])"
  by (intro interspersed.intros) (simp_all add: is_param_def is_letter_def)

theorem stripANSI_interspersed_raw_witness:
  "stripANSI ((ESC # ''[1;31m'') @ CHR ''o'' # (ESC # ''[0m'') @ CHR ''k'' # []) = ''ok''
   \<and> transform raw_config (ESC # ''[0mok'') = ESC # ''[0mok''"
  using stripANSI_interspersed_raw [of "''ok''" "(ESC # ''[1;31m'') @ CHR ''o'' # (ESC # ''[0m'') @ CHR ''k'' # []" raw_config "ESC # ''[0mok''"]
    demo_interspersed
  by (simp add: match_at_def letter_next_def is_param_def is_letter_def ESC_def raw_config_def
        no_flags_def applyLineFilters_def)

subsection \<open>The command executor\<close>

text \<open>The definitions a run on a sample machine is evaluated with.\<close>

lemmas run_defs =
  main_def start_def executeCommand_def cmd_Run_def written_def delay_step_def transform_def
  match_at_def letter_next_def applyLineFilters_def limitLines_def persist_def writeToFile_def
  fullOutput_def header_def targetFile_def publish_def clear_step_def copyToClipboard_def
  clearClipboard_def detectClipboardTool_def echo_def HasSuffix_def Print_def EPrint_def
  exit_status_def printed_def file_after_def runs_after_def
  no_flags_def capture_config_def append_config_def quiet_config_def quiet_verbose_config_def
  limit_config_def verbose_config_def demo_world_def demo_child_def seq_world_def
  no_helper_world_def nl_def dq_def ESC_def Let_def Count_def itoa_def decimal.simps digit_def

text \<open>
  Claim C7. With capture-stderr off and a child that exits non-zero, for every non-empty
  argument vector \<open>executeCommand\<close> still returns what the child wrote to its standard
  output, together with an error: the error of the wait itself when the child wrote
  nothing to its standard error, and otherwise that error followed by the captured
  standard error text.
\<close>

theorem executeCommand_child_failure:
  assumes "args \<noteq> []" and "child w args = Completed chunks (Some e)"
  shows "executeCommand w args False =
           Some (written ToStdout chunks,
                 Some (if written ToStderr chunks = [] then e
                       else e @ '' (stderr: '' @ written ToStderr chunks @ '')''))"
  using assms by (simp add: executeCommand_def cmd_Run_def)

theorem executeCommand_child_failure_witness:
  "executeCommand demo_world [''fail''] False = Some (''outmore'', Some ''exit status 1 (stderr: bad)'')"
  using executeCommand_child_failure [of "[''fail'']" demo_world "[(ToStdout, ''out''), (ToStderr, ''bad''), (ToStdout, ''more'')]" "''exit status 1''"]
  by (simp add: demo_world_def demo_child_def written_def)

subsection \<open>The clipboard publisher\<close>

text \<open>
  Claim C8. \<open>detectClipboardTool\<close> takes the first of \<open>wl-copy\<close> (no arguments),
  \<open>xclip -selection clipboard\<close> and \<open>xsel --clipboard --input\<close>, in this order, that is
  on the search path; \<open>copyToClipboard\<close> runs that helper with these arguments on the
  content, and when none of the three is on the path it runs nothing and fails with an
  error that names the three.
\<close>

theorem clipboard_tool_discovery:
  "detectClipboardTool w =
     (case find (\<lambda>c. lookPath w (fst c)) candidates of Some c \<Rightarrow> c | None \<Rightarrow> ([], []))
   \<and> (find (\<lambda>c. lookPath w (fst c)) candidates = Some (tool, targs) \<longrightarrow>
        snd (copyToClipboard w content) = [(tool, targs, content)])
   \<and> (find (\<lambda>c. lookPath w (fst c)) candidates = None \<longrightarrow>
        copyToClipboard w content =
          (Some (''no clipboard tool found (tried: '' @ Join (map fst candidates) '', '' @ '')''), []))"
  by (auto simp: detectClipboardTool_def candidates_def copyToClipboard_def split: prod.splits option.splits if_splits)

theorem clipboard_tool_discovery_witness:
  "detectClipboardTool demo_world = (''xclip'', [''-selection'', ''clipboard''])
   \<and> snd (copyToClipboard demo_world ''hello'') = [(''xclip'', [''-selection'', ''clipboard''], ''hello'')]
   \<and> copyToClipboard (demo_world\<lparr>lookPath := (\<lambda>name. False)\<rparr>) ''hello'' = (Some ''no clipboard tool found (tried: wl-copy, xclip, xsel)'', [])"
  using clipboard_tool_discovery [of demo_world "''xclip''" "[''-selection'', ''clipboard'']" "''hello''"]
        clipboard_tool_discovery [of "demo_world\<lparr>lookPath := (\<lambda>name. False)\<rparr>" "''xclip''" "[''-selection'', ''clipboard'']" "''hello''"]
  by (simp add: demo_world_def candidates_def)

subsection \<open>The file persister\<close>

text \<open>
  Claim C6. For every path and every two records, when the directory, the opening and the
  two writes do not fail: writing the first and then the second record in overwrite mode
  leaves the file with exactly the bytes of the second; in append mode it leaves the
  file with what it held before, then the bytes of the first record, then those of the
  second.
\<close>

theorem writeToFile_round_trip:
  assumes "mkdirAll w path = None" and "openFile w path m = None"
    and "writeString w path r1 = None" and "writeString w path r2 = None"
  shows "\<exists>w1 w2. writeToFile w path r1 m = (None, w1) \<and> writeToFile w1 path r2 m = (None, w2)
           \<and> files w2 path = Some (if m then existing w path @ r1 @ r2 else r2)"
  using assms by (simp add: writeToFile_def existing_def)

theorem writeToFile_round_trip_witness:
  "files (snd (writeToFile (snd (writeToFile demo_world ''/tmp/cb.txt'' ''one'' False)) ''/tmp/cb.txt'' ''two'' False)) ''/tmp/cb.txt'' = Some ''two''
  \<and> files (snd (writeToFile (snd (writeToFile demo_world ''/tmp/cb.txt'' ''one'' True)) ''/tmp/cb.txt'' ''two'' True)) ''/tmp/cb.txt'' = Some ''onetwo''"
  using writeToFile_round_trip [of demo_world "''/tmp/cb.txt''" False "''one''" "''two''"]
        writeToFile_round_trip [of demo_world "''/tmp/cb.txt''" True "''one''" "''two''"]
  by (auto simp: demo_world_def existing_def)

lemma writeToFile_None:
  "writeToFile w p r m = (None, w') \<Longrightarrow> files w' p = Some ((if m then existing w p else []) @ r)"
  by (auto simp: writeToFile_def existing_def Let_def split: option.splits prod.splits)

lemma writeToFile_frame:
  "lookPath (snd (writeToFile w p r m)) = lookPath w"
  "helper (snd (writeToFile w p r m)) = helper w"
  "clock (snd (writeToFile w p r m)) = clock w"
  "child (snd (writeToFile w p r m)) = child w"
  "mkdirAll (snd (writeToFile w p r m)) = mkdirAll w"
  "openFile (snd (writeToFile w p r m)) = openFile w"
  "writeString (snd (writeToFile w p r m)) = writeString w"
  by (simp_all add: writeToFile_def Let_def split: option.splits prod.splits)

lemma copyToClipboard_same:
  "lookPath w' = lookPath w \<Longrightarrow> helper w' = helper w
     \<Longrightarrow> copyToClipboard w' out = copyToClipboard w out"
  by (simp add: copyToClipboard_def detectClipboardTool_def)

lemma copyToClipboard_after_write:
  "copyToClipboard (snd (writeToFile w p r m)) out = copyToClipboard w out"
  by (rule copyToClipboard_same) (rule writeToFile_frame)+

subsection \<open>The steps of the orchestrator\<close>

lemma echo_eq: "echo c out st = st\<lparr>os_stdout := os_stdout st @ terminal_echo c out\<rparr>"
  by (simp add: echo_def terminal_echo_def Print_def limitLines_def Let_def)

lemma delay_step_frame:
  "env (delay_step c st) = env st" "helper_runs (delay_step c st) = helper_runs st"
  "os_stderr (delay_step c st) = os_stderr st"
  "\<not> verbose c \<Longrightarrow> delay_step c st = st"
  by (simp_all add: delay_step_def Print_def)

lemma persist_skipped: "noTemp c \<Longrightarrow> persist c args out st = Inr st"
  by (simp add: persist_def)

lemma persist_written:
  assumes "\<not> noTemp c"
    and "writeToFile (env st) (targetFile c) (fullOutput (clock (env st)) args out) (appendMode c) = (None, w')"
  shows "persist c args out st =
           Inr (if verbose c then Print (''Output written to '' @ targetFile c @ [nl]) (st\<lparr>env := w'\<rparr>)
                else st\<lparr>env := w'\<rparr>)"
  using assms by (simp add: persist_def)

lemma persist_failed:
  assumes "\<not> noTemp c"
    and "writeToFile (env st) (targetFile c) (fullOutput (clock (env st)) args out) (appendMode c) = (Some e, w')"
  shows "persist c args out st = Inl (1, EPrint (''Error writing to file: '' @ e @ [nl]) (st\<lparr>env := w'\<rparr>))"
  using assms by (simp add: persist_def)

lemma persist_Inr_frame:
  assumes "persist c args out st = Inr st'"
  shows "helper_runs st' = helper_runs st" "os_stderr st' = os_stderr st"
    "\<not> verbose c \<Longrightarrow> os_stdout st' = os_stdout st"
    "noTemp c \<Longrightarrow> st' = st"
    "\<not> noTemp c \<Longrightarrow>
       writeToFile (env st) (targetFile c) (fullOutput (clock (env st)) args out) (appendMode c) = (None, env st')"
  using assms by (auto simp: persist_def Print_def split: if_splits prod.splits option.splits)

lemma clear_step_frame:
  "env (clear_step c st) = env st" "os_stdout (clear_step c st) = os_stdout st"
  by (auto simp: clear_step_def EPrint_def split: prod.splits option.splits)

lemma publish_skipped: "noClipboard c \<Longrightarrow> publish c out st = Inr st"
  by (simp add: publish_def)

lemma publish_Inr_frame:
  assumes "publish c out st = Inr st'"
  shows "env st' = env st"
    "\<not> verbose c \<Longrightarrow> os_stdout st' = os_stdout st"
    "noClipboard c \<Longrightarrow> st' = st"
    "\<not> noClipboard c \<Longrightarrow>
       \<exists>tool targs. helper_runs st' = helper_runs (clear_step c st) @ [(tool, targs, out)]"
  using assms
  by (auto simp: publish_def Let_def Print_def clear_step_frame copyToClipboard_def
           split: if_splits prod.splits option.splits)

lemma publish_ok:
  assumes "noClipboard c \<or> fst (copyToClipboard (env st) out) = None"
  shows "\<exists>st'. publish c out st = Inr st'"
  using assms
  by (cases "copyToClipboard (env st) out")
     (auto simp: publish_def Let_def clear_step_frame split: prod.splits option.splits)

lemma persist_ok:
  assumes "noTemp c \<or>
     fst (writeToFile (env st) (targetFile c) (fullOutput (clock (env st)) args out) (appendMode c)) = None"
  shows "\<exists>st'. persist c args out st = Inr st'"
  using assms
  by (cases "writeToFile (env st) (targetFile c) (fullOutput (clock (env st)) args out) (appendMode c)")
     (auto simp: persist_def split: prod.splits option.splits)

text \<open>What each step prints, and that the clipboard step leaves the files alone.\<close>

lemma delay_step_stdout:
  "os_stdout (delay_step c st) =
     os_stdout st @ (if verbose c \<and> delay c > 0
                     then ''Waiting '' @ itoa (delay c) @ '' seconds...'' @ [nl] else [])"
  by (simp add: delay_step_def Print_def)

lemma persist_Inr_stdout:
  assumes "persist c args out st = Inr st'"
  shows "os_stdout st' =
     os_stdout st @ (if verbose c \<and> \<not> noTemp c
                     then ''Output written to '' @ targetFile c @ [nl] else [])"
  using assms by (auto simp: persist_def Print_def split: if_splits prod.splits option.splits)

lemma publish_Inr_stdout:
  assumes "publish c out st = Inr st'"
  shows "os_stdout st' =
     os_stdout st @ (if verbose c \<and> \<not> noClipboard c
                     then ''Copied '' @ itoa (int (Count out nl) + 1) @ '' lines to clipboard'' @ [nl]
                     else [])"
  using assms
  by (auto simp: publish_def Let_def Print_def clear_step_frame
           split: if_splits prod.splits option.splits)

lemma publish_env:
  "(case publish c out st of Inl x \<Rightarrow> env (snd x) | Inr st' \<Rightarrow> env st') = env st"
  by (auto simp: publish_def Let_def Print_def EPrint_def clear_step_frame
           split: if_splits prod.splits option.splits sum.splits)

lemma main_pipeline:
  assumes "\<not> helpFlag c" "\<not> showVersion c"
    and "executeCommand w args (stderr c) = Some (captured, None)"
  shows "main c args w =
           (case persist c args (transform c captured) (delay_step c (start w)) of
              Inl x \<Rightarrow> Some x
            | Inr st \<Rightarrow>
                (case publish c (transform c captured) st of
                   Inl x \<Rightarrow> Some x
                 | Inr st \<Rightarrow> Some (0, echo c (transform c captured) st)))"
proof -
  from assms(3) have "args \<noteq> []" by (auto simp: executeCommand_def split: if_splits)
  with assms show ?thesis by (simp add: main_def Let_def)
qed

lemma main_success:
  assumes "\<not> helpFlag c" "\<not> showVersion c" "exit_status (main c args w) = Some 0"
  obtains captured st1 st2 where
    "executeCommand w args (stderr c) = Some (captured, None)"
    "persist c args (transform c captured) (delay_step c (start w)) = Inr st1"
    "publish c (transform c captured) st1 = Inr st2"
    "main c args w = Some (0, echo c (transform c captured) st2)"
proof -
  from assms have ne: "args \<noteq> []"
    by (auto simp: main_def Let_def exit_status_def)
  from assms ne obtain captured where ex: "executeCommand w args (stderr c) = Some (captured, None)"
    by (cases "executeCommand w args (stderr c)")
       (auto simp: main_def Let_def exit_status_def split: option.splits prod.splits)
  note m = main_pipeline[OF assms(1,2) ex]
  from assms(3) m obtain st1 where p: "persist c args (transform c captured) (delay_step c (start w)) = Inr st1"
    by (cases "persist c args (transform c captured) (delay_step c (start w))")
       (auto simp: exit_status_def persist_def split: if_splits prod.splits option.splits)
  from assms(3) m p obtain st2 where q: "publish c (transform c captured) st1 = Inr st2"
    by (cases "publish c (transform c captured) st1")
       (auto simp: exit_status_def publish_def Let_def split: if_splits prod.splits option.splits)
  from m p q have "main c args w = Some (0, echo c (transform c captured) st2)" by simp
  with ex p q that show thesis by blast
qed

lemma main_success_file:
  assumes "\<not> helpFlag c" "\<not> showVersion c" "exit_status (main c args w) = Some 0"
    and "executeCommand w args (stderr c) = Some (captured, None)" and "\<not> noTemp c"
  shows "file_after (main c args w) (targetFile c) =
           Some ((if appendMode c then existing w (targetFile c) else [])
                 @ fullOutput (clock w) args (transform c captured))"
proof -
  from assms(1-3) obtain captured' st1 st2 where
      ex: "executeCommand w args (stderr c) = Some (captured', None)"
      and p: "persist c args (transform c captured') (delay_step c (start w)) = Inr st1"
      and q: "publish c (transform c captured') st1 = Inr st2"
      and m: "main c args w = Some (0, echo c (transform c captured') st2)"
    by (rule main_success)
  from ex assms(4) have [simp]: "captured' = captured" by simp
  have e0: "env (delay_step c (start w)) = w" by (simp add: delay_step_frame start_def)
  from persist_Inr_frame(5)[OF p assms(5)] e0
  have "writeToFile w (targetFile c) (fullOutput (clock w) args (transform c captured)) (appendMode c)
          = (None, env st1)" by simp
  then have "files (env st1) (targetFile c) =
     Some ((if appendMode c then existing w (targetFile c) else []) @ fullOutput (clock w) args (transform c captured))"
    by (rule writeToFile_None)
  moreover have "env st2 = env st1" using q by (rule publish_Inr_frame(1))
  ultimately show ?thesis using m by (simp add: file_after_def echo_eq)
qed

lemma main_success_clipboard:
  assumes "\<not> helpFlag c" "\<not> showVersion c" "exit_status (main c args w) = Some 0"
    and "executeCommand w args (stderr c) = Some (captured, None)" and "\<not> noClipboard c"
  shows "\<exists>earlier tool targs. runs_after (main c args w) = earlier @ [(tool, targs, transform c captured)]"
proof -
  from assms(1-3) obtain captured' st1 st2 where
      ex: "executeCommand w args (stderr c) = Some (captured', None)"
      and p: "persist c args (transform c captured') (delay_step c (start w)) = Inr st1"
      and q: "publish c (transform c captured') st1 = Inr st2"
      and m: "main c args w = Some (0, echo c (transform c captured') st2)"
    by (rule main_success)
  from ex assms(4) have [simp]: "captured' = captured" by simp
  from publish_Inr_frame(4)[OF q assms(5)] obtain tool targs where
    "helper_runs st2 = helper_runs (clear_step c st1) @ [(tool, targs, transform c captured)]" by auto
  with m show ?thesis by (auto simp: runs_after_def echo_eq)
qed

text \<open>The quiet flags are read by the echo only.\<close>

lemma quiet_frame:
  "transform (c\<lparr>quiet := q, quietLines := n\<rparr>) = transform c"
  "delay_step (c\<lparr>quiet := q, quietLines := n\<rparr>) = delay_step c"
  "persist (c\<lparr>quiet := q, quietLines := n\<rparr>) = persist c"
  "publish (c\<lparr>quiet := q, quietLines := n\<rparr>) = publish c"
  by (auto simp: fun_eq_iff transform_def delay_step_def persist_def publish_def clear_step_def
        targetFile_def Let_def split: prod.splits option.splits)

lemma main_quiet_frame:
  "exit_status (main (c\<lparr>quiet := q, quietLines := n\<rparr>) args w) = exit_status (main c args w)"
  "file_after (main (c\<lparr>quiet := q, quietLines := n\<rparr>) args w) path = file_after (main c args w) path"
  "runs_after (main (c\<lparr>quiet := q, quietLines := n\<rparr>) args w) = runs_after (main c args w)"
  by (auto simp: main_def Let_def quiet_frame exit_status_def file_after_def runs_after_def echo_eq
           split: option.splits prod.splits sum.splits)

text \<open>\<open>main\<close> never panics: it guards \<open>args[0]\<close> of \<open>executeCommand\<close>.\<close>

lemma main_returns: "\<exists>code st. main c args w = Some (code, st)"
proof -
  have "main c args w \<noteq> None"
    by (auto simp: main_def Let_def executeCommand_def split: option.splits prod.splits sum.splits)
  then show ?thesis by auto
qed

lemma main_completed:
  assumes "\<not> helpFlag c" and "\<not> showVersion c"
    and "executeCommand w args (stderr c) = Some (captured, None)"
    and "file_step_ok c args w (transform c captured)"
    and "clipboard_step_ok c w (transform c captured)"
  shows "\<exists>st. main c args w = Some (0, echo c (transform c captured) st)
           \<and> os_stdout st = status_lines c (transform c captured)"
proof -
  let ?out = "transform c captured"
  have e0: "env (delay_step c (start w)) = w" by (simp add: delay_step_frame start_def)
  from assms(4) obtain st1 where p: "persist c args ?out (delay_step c (start w)) = Inr st1"
    using persist_ok[of c "delay_step c (start w)" args ?out] e0
    by (auto simp: file_step_ok_def)
  have "copyToClipboard (env st1) ?out = copyToClipboard w ?out"
  proof (cases "noTemp c")
    case True
    with persist_Inr_frame(4)[OF p] e0 show ?thesis by simp
  next
    case False
    from persist_Inr_frame(5)[OF p False] e0
    have "env st1 = snd (writeToFile w (targetFile c) (fullOutput (clock w) args ?out) (appendMode c))"
      by simp
    then show ?thesis by (simp add: copyToClipboard_after_write)
  qed
  with assms(5) obtain st2 where q: "publish c ?out st1 = Inr st2"
    using publish_ok[of c st1 ?out] by (auto simp: clipboard_step_ok_def)
  from main_pipeline[OF assms(1-3)] p q
  have m: "main c args w = Some (0, echo c ?out st2)" by simp
  have "os_stdout (delay_step c (start w)) =
          (if verbose c \<and> delay c > 0
           then ''Waiting '' @ itoa (delay c) @ '' seconds...'' @ [nl] else [])"
    by (simp add: delay_step_stdout start_def)
  with persist_Inr_stdout[OF p] publish_Inr_stdout[OF q]
  have "os_stdout st2 = status_lines c ?out" by (simp add: status_lines_def)
  with m show ?thesis by blast
qed

text \<open>A record that is written stays, whatever the clipboard step does afterwards.\<close>

lemma main_record_persisted:
  assumes "\<not> helpFlag c" and "\<not> showVersion c" and "\<not> noTemp c"
    and "executeCommand w args (stderr c) = Some (captured, None)"
    and "mkdirAll w (targetFile c) = None"
    and "openFile w (targetFile c) (appendMode c) = None"
    and "writeString w (targetFile c) (header (clock w) args @ transform c captured @ [nl]) = None"
  shows "file_after (main c args w) (targetFile c) =
           Some ((if appendMode c then existing w (targetFile c) else [])
                 @ header (clock w) args @ transform c captured @ [nl])"
proof -
  let ?out = "transform c captured"
  let ?p = "targetFile c"
  let ?w' = "w\<lparr>files := (files w)(?p \<mapsto>
               (if appendMode c then existing w ?p else []) @ header (clock w) args @ ?out @ [nl])\<rparr>"
  have e0: "env (delay_step c (start w)) = w" by (simp add: delay_step_frame start_def)
  have wr: "writeToFile w ?p (fullOutput (clock w) args ?out) (appendMode c) = (None, ?w')"
    using assms(5-7) by (simp add: writeToFile_def fullOutput_def existing_def)
  obtain st1 where p: "persist c args ?out (delay_step c (start w)) = Inr st1"
    and e1: "env st1 = ?w'"
    using persist_written[of c "delay_step c (start w)" args ?out ?w'] assms(3) wr e0
    by (cases "verbose c") (auto simp: Print_def)
  have "file_after (main c args w) ?p = files (env st1) ?p"
  proof (cases "publish c ?out st1")
    case (Inl x)
    with publish_env[of c ?out st1] have "env (snd x) = env st1" by simp
    with main_pipeline[OF assms(1,2,4)] p Inl show ?thesis
      by (cases x) (simp add: file_after_def)
  next
    case (Inr st2)
    with publish_env[of c ?out st1] have "env st2 = env st1" by simp
    with main_pipeline[OF assms(1,2,4)] p Inr show ?thesis
      by (simp add: file_after_def echo_eq)
  qed
  with e1 show ?thesis by simp
qed

lemma executeCommand_capture:
  "args \<noteq> [] \<Longrightarrow> executeCommand w args True = Some (fst (cmd_Run (child w args) True), None)"
  by (auto simp: executeCommand_def split: prod.splits option.splits)

subsection \<open>Failures of the command\<close>

text \<open>
  Claim C1 says that an executable that cannot be spawned yields an error in every mode
  and that the run then stops before the file and the clipboard step. Not so in
  capture-stderr mode: on the sample machine \<open>nosuch\<close> cannot be started, yet with \<open>-e\<close>
  \<open>executeCommand\<close> returns the empty output and no error, the run exits 0, the file
  holds a record with an empty text and the clipboard helper is run.
\<close>

theorem capture_mode_hides_spawn_failure:
  "executeCommand demo_world [''nosuch''] True = Some ([], None)
   \<and> exit_status (main capture_config [''nosuch''] demo_world) = Some 0
   \<and> file_after (main capture_config [''nosuch''] demo_world) ''/tmp/cb.txt''
       = Some (''[2025-11-17 19:41:29 '' @ [dq] @ ''nosuch'' @ [dq] @ '']:'' @ [nl, nl])
   \<and> runs_after (main capture_config [''nosuch''] demo_world)
       = [(''xclip'', [''-selection'', ''clipboard''], [])]"
  by (simp add: run_defs)

text \<open>
  Claim C1, amended. In capture-stderr mode \<open>executeCommand\<close> reports no error for any
  failed run: for every non-empty argument vector it returns the merged output of a child
  that ran, whatever its exit status, and the empty output when the executable cannot be
  spawned; the run then exits 0 whenever its file step and its clipboard step do not
  fail. With capture-stderr off an executable that cannot be spawned yields the error
  of the spawn, and the orchestrator prints it, exits 1, and has touched no file and run
  no clipboard helper.
\<close>

theorem executeCommand_failure_policy:
  "(args \<noteq> [] \<and> child w args = Completed chunks werr \<longrightarrow>
      executeCommand w args True = Some (concat (map snd chunks), None))
   \<and> (args \<noteq> [] \<and> child w args = StartFailed e \<longrightarrow>
      executeCommand w args True = Some ([], None)
      \<and> executeCommand w args False = Some ([], Some e))
   \<and> (args \<noteq> [] \<and> stderr config \<and> \<not> helpFlag config \<and> \<not> showVersion config
        \<and> file_step_ok config args w (transform config (fst (cmd_Run (child w args) True)))
        \<and> clipboard_step_ok config w (transform config (fst (cmd_Run (child w args) True))) \<longrightarrow>
      exit_status (main config args w) = Some 0)
   \<and> (args \<noteq> [] \<and> child w args = StartFailed e
        \<and> \<not> stderr config \<and> \<not> helpFlag config \<and> \<not> showVersion config \<longrightarrow>
      main config args w = Some (1, EPrint (''Error executing command: '' @ e @ [nl]) (start w))
      \<and> exit_status (main config args w) = Some 1
      \<and> file_after (main config args w) path = files w path
      \<and> runs_after (main config args w) = [])"
proof (intro conjI impI)
  assume "args \<noteq> [] \<and> child w args = Completed chunks werr"
  then show "executeCommand w args True = Some (concat (map snd chunks), None)"
    by (simp add: executeCommand_capture cmd_Run_def)
next
  assume "args \<noteq> [] \<and> child w args = StartFailed e"
  then show "executeCommand w args True = Some ([], None)"
    by (simp add: executeCommand_capture cmd_Run_def)
next
  assume "args \<noteq> [] \<and> child w args = StartFailed e"
  then show "executeCommand w args False = Some ([], Some e)"
    by (simp add: executeCommand_def cmd_Run_def)
next
  let ?captured = "fst (cmd_Run (child w args) True)"
  assume a: "args \<noteq> [] \<and> stderr config \<and> \<not> helpFlag config \<and> \<not> showVersion config
        \<and> file_step_ok config args w (transform config ?captured)
        \<and> clipboard_step_ok config w (transform config ?captured)"
  then have "executeCommand w args (stderr config) = Some (?captured, None)"
    by (simp add: executeCommand_capture)
  with a obtain st where "main config args w = Some (0, echo config (transform config ?captured) st)"
    using main_completed[of config w args ?captured] by blast
  then show "exit_status (main config args w) = Some 0" by (simp add: exit_status_def)
next
  assume a: "args \<noteq> [] \<and> child w args = StartFailed e
        \<and> \<not> stderr config \<and> \<not> helpFlag config \<and> \<not> showVersion config"
  then have ex: "executeCommand w args (stderr config) = Some ([], Some e)"
    by (simp add: executeCommand_def cmd_Run_def)
  with a show m: "main config args w = Some (1, EPrint (''Error executing command: '' @ e @ [nl]) (start w))"
    by (simp add: main_def Let_def)
  then show "exit_status (main config args w) = Some 1"
    and "file_after (main config args w) path = files w path"
    and "runs_after (main config args w) = []"
    by (simp_all add: exit_status_def file_after_def runs_after_def EPrint_def start_def)
qed

theorem executeCommand_failure_policy_witness:
  "executeCommand demo_world [''fail''] True = Some (''outbadmore'', None)
   \<and> exit_status (main capture_config [''fail''] demo_world) = Some 0
   \<and> executeCommand demo_world [''nosuch''] True = Some ([], None)
   \<and> executeCommand demo_world [''nosuch''] False
       = Some ([], Some ''executable file not found in $PATH'')
   \<and> exit_status (main no_flags [''nosuch''] demo_world) = Some 1
   \<and> file_after (main no_flags [''nosuch''] demo_world) ''/tmp/cb.txt'' = None
   \<and> runs_after (main no_flags [''nosuch''] demo_world) = []"
  using executeCommand_failure_policy
          [where args = "[''fail'']" and w = demo_world
             and chunks = "[(ToStdout, ''out''), (ToStderr, ''bad''), (ToStdout, ''more'')]"
             and werr = "Some ''exit status 1''" and e = "''x''" and config = capture_config
             and path = "''/tmp/cb.txt''"]
        executeCommand_failure_policy
          [where args = "[''nosuch'']" and w = demo_world and chunks = "[]" and werr = None
             and e = "''executable file not found in $PATH''" and config = no_flags
             and path = "''/tmp/cb.txt''"]
  by (simp add: run_defs file_step_ok_def clipboard_step_ok_def)

subsection \<open>The terminal\<close>

text \<open>A bare \<open>-q\<close> makes the run fully quiet: the quiet flag set and no line count.\<close>

lemma quietFlag_Set_bare:
  "quietFlag_Set scan ''true'' config = (None, config\<lparr>quiet := True, quietLines := 0\<rparr>)"
  by (simp add: quietFlag_Set_def)

lemma terminal_echo_shown:
  assumes "\<not> (quiet c \<and> quietLines c = 0)"
  shows "terminal_echo c t =
           (let shown = (if 0 < quietLines c then limitLines t (quietLines c) else t)
            in shown @ (if shown \<noteq> [] \<and> \<not> HasSuffix shown [nl] then [nl] else []))"
proof (cases "0 < quietLines c")
  case True
  with assms show ?thesis by (simp add: terminal_echo_def Let_def)
next
  case False
  then have "limitLines t (quietLines c) = t" by (simp add: limitLines_def)
  with assms False show ?thesis by (simp add: terminal_echo_def Let_def)
qed

text \<open>
  Claim C2 says that a run that is not fully quiet prints the text followed by a newline
  exactly when the text lacks one, and that a fully quiet run prints nothing. On the
  sample machine \<open>true\<close> prints nothing: the run with no flags is not fully quiet, the
  text to print is empty and so lacks a trailing newline, yet nothing at all is printed,
  no newline either. And the fully quiet run of \<open>echo hello\<close> with \<open>-v\<close> prints its two
  status lines to the standard output.
\<close>

theorem empty_text_prints_no_newline:
  "\<not> (quiet no_flags \<and> quietLines no_flags = 0)
   \<and> executeCommand demo_world [''true''] (stderr no_flags) = Some ([], None)
   \<and> transform no_flags [] = []
   \<and> \<not> HasSuffix [] [nl]
   \<and> exit_status (main no_flags [''true''] demo_world) = Some 0
   \<and> printed (main no_flags [''true''] demo_world) = []
   \<and> printed (main no_flags [''true''] demo_world) \<noteq> [] @ [nl]
   \<and> quiet quiet_verbose_config \<and> quietLines quiet_verbose_config = 0
   \<and> printed (main quiet_verbose_config [''echo'', ''hello''] demo_world)
       = ''Output written to /tmp/cb.txt'' @ [nl] @ ''Copied 2 lines to clipboard'' @ [nl]"
  by (simp add: run_defs Count_def itoa_def decimal.simps digit_def)

text \<open>
  Claim C2, amended. For every run that captures its output and whose file and clipboard
  steps do not fail: the program exits 0, and what it has printed to the standard output
  is exactly the status lines of verbose mode (none without \<open>-v\<close>) followed by the echo
  of the terminal step. The echo is empty when the run is fully quiet (quiet set, no
  line count), so such a run prints its status lines and nothing else; otherwise the
  echo is the transformed text, cut to its first lines when a quiet line count is set,
  followed by a newline exactly when that text is not empty and does not end with one:
  an empty text prints nothing.
\<close>

theorem terminal_output_decision:
  assumes "\<not> helpFlag c" and "\<not> showVersion c"
    and "executeCommand w args (stderr c) = Some (captured, None)"
    and "file_step_ok c args w (transform c captured)"
    and "clipboard_step_ok c w (transform c captured)"
  shows "exit_status (main c args w) = Some 0
    \<and> printed (main c args w) =
        status_lines c (transform c captured) @ terminal_echo c (transform c captured)
    \<and> (\<not> verbose c \<longrightarrow> status_lines c (transform c captured) = [])
    \<and> (quiet c \<and> quietLines c = 0 \<longrightarrow>
          terminal_echo c (transform c captured) = []
          \<and> printed (main c args w) = status_lines c (transform c captured))
    \<and> (\<not> (quiet c \<and> quietLines c = 0) \<longrightarrow>
          terminal_echo c (transform c captured) =
            (let shown = (if 0 < quietLines c
                          then limitLines (transform c captured) (quietLines c)
                          else transform c captured)
             in shown @ (if shown \<noteq> [] \<and> \<not> HasSuffix shown [nl] then [nl] else [])))"
proof -
  let ?out = "transform c captured"
  from main_completed[OF assms] obtain st where m: "main c args w = Some (0, echo c ?out st)"
    and s: "os_stdout st = status_lines c ?out"
    by blast
  then have pr: "printed (main c args w) = status_lines c ?out @ terminal_echo c ?out"
    by (simp add: printed_def echo_eq)
  from m have ex: "exit_status (main c args w) = Some 0"
    by (simp add: exit_status_def)
  have nv: "\<not> verbose c \<longrightarrow> status_lines c ?out = []"
    by (simp add: status_lines_def)
  have q: "quiet c \<and> quietLines c = 0 \<longrightarrow>
          terminal_echo c ?out = [] \<and> printed (main c args w) = status_lines c ?out"
    using pr by (simp add: terminal_echo_def)
  have nq: "\<not> (quiet c \<and> quietLines c = 0) \<longrightarrow>
          terminal_echo c ?out =
            (let shown = (if 0 < quietLines c then limitLines ?out (quietLines c) else ?out)
             in shown @ (if shown \<noteq> [] \<and> \<not> HasSuffix shown [nl] then [nl] else []))"
    by (rule impI) (rule terminal_echo_shown)
  from ex pr nv q nq show ?thesis by blast
qed

theorem terminal_output_decision_witness:
  "exit_status (main no_flags [''echo'', ''hello''] demo_world) = Some 0
   \<and> printed (main no_flags [''echo'', ''hello''] demo_world) = ''hello'' @ [nl]
   \<and> exit_status (main quiet_config [''echo'', ''hello''] demo_world) = Some 0
   \<and> printed (main quiet_config [''echo'', ''hello''] demo_world) = []
   \<and> printed (main quiet_verbose_config [''echo'', ''hello''] demo_world)
       = ''Output written to /tmp/cb.txt'' @ [nl] @ ''Copied 2 lines to clipboard'' @ [nl]
   \<and> printed (main verbose_config [''echo'', ''hello''] demo_world)
       = ''Waiting 3 seconds...'' @ [nl] @ ''Output written to /tmp/cb.txt'' @ [nl]
         @ ''Copied 2 lines to clipboard'' @ [nl] @ ''hello'' @ [nl]"
  using terminal_output_decision [of no_flags demo_world "[''echo'', ''hello'']" "''hello'' @ [nl]"]
        terminal_output_decision [of quiet_config demo_world "[''echo'', ''hello'']" "''hello'' @ [nl]"]
        terminal_output_decision [of quiet_verbose_config demo_world "[''echo'', ''hello'']" "''hello'' @ [nl]"]
        terminal_output_decision [of verbose_config demo_world "[''echo'', ''hello'']" "''hello'' @ [nl]"]
  by (simp add: run_defs file_step_ok_def clipboard_step_ok_def terminal_echo_def status_lines_def)

subsection \<open>What is stored and what is shown\<close>

text \<open>
  Claim C5. The display limit is for the terminal only. For every configuration,
  argument vector and environment, setting the quiet flag and the quiet line count to
  any values changes neither the exit status nor any file nor the clipboard helper
  runs. And in every run that ends with status 0, the record in the target file is the
  header followed by the output of the strip, trim and head/tail chain on the captured
  text and a newline, and the text streamed to the clipboard helper is that same output.
\<close>

theorem display_limit_print_only:
  "exit_status (main (c\<lparr>quiet := q, quietLines := n\<rparr>) args w) = exit_status (main c args w)
   \<and> file_after (main (c\<lparr>quiet := q, quietLines := n\<rparr>) args w) path = file_after (main c args w) path
   \<and> runs_after (main (c\<lparr>quiet := q, quietLines := n\<rparr>) args w) = runs_after (main c args w)
   \<and> (\<not> helpFlag c \<and> \<not> showVersion c \<and> exit_status (main c args w) = Some 0
        \<and> executeCommand w args (stderr c) = Some (captured, None) \<longrightarrow>
        (\<not> noTemp c \<longrightarrow>
           file_after (main c args w) (targetFile c) =
             Some ((if appendMode c then existing w (targetFile c) else [])
                   @ header (clock w) args @ transform c captured @ [nl]))
        \<and> (\<not> noClipboard c \<longrightarrow>
             (\<exists>earlier tool targs.
                runs_after (main c args w) = earlier @ [(tool, targs, transform c captured)])))"
proof (intro conjI impI)
  show "exit_status (main (c\<lparr>quiet := q, quietLines := n\<rparr>) args w) = exit_status (main c args w)"
    by (rule main_quiet_frame)
  show "file_after (main (c\<lparr>quiet := q, quietLines := n\<rparr>) args w) path = file_after (main c args w) path"
    by (rule main_quiet_frame)
  show "runs_after (main (c\<lparr>quiet := q, quietLines := n\<rparr>) args w) = runs_after (main c args w)"
    by (rule main_quiet_frame)
next
  assume a: "\<not> helpFlag c \<and> \<not> showVersion c \<and> exit_status (main c args w) = Some 0
        \<and> executeCommand w args (stderr c) = Some (captured, None)"
  {
    assume "\<not> noTemp c"
    with a show "file_after (main c args w) (targetFile c) =
             Some ((if appendMode c then existing w (targetFile c) else [])
                   @ header (clock w) args @ transform c captured @ [nl])"
      using main_success_file[of c args w captured] by (simp add: fullOutput_def)
  }
  {
    assume "\<not> noClipboard c"
    with a show "\<exists>earlier tool targs.
                runs_after (main c args w) = earlier @ [(tool, targs, transform c captured)]"
      using main_success_clipboard[of c args w captured] by simp
  }
qed

theorem display_limit_print_only_witness:
  "printed (main no_flags [''seq''] seq_world) = [CHR ''1'', nl, CHR ''2'', nl, CHR ''3'', nl]
   \<and> printed (main limit_config [''seq''] seq_world) = [CHR ''1'', nl, CHR ''2'', nl]
   \<and> file_after (main limit_config [''seq''] seq_world) ''/tmp/cb.txt''
       = Some (''[2025-11-17 19:41:29 '' @ [dq] @ ''seq'' @ [dq] @ '']:'' @ [nl] @ [CHR ''1'', nl, CHR ''2'', nl, CHR ''3''] @ [nl])
   \<and> runs_after (main limit_config [''seq''] seq_world)
       = [(''xclip'', [''-selection'', ''clipboard''], [CHR ''1'', nl, CHR ''2'', nl, CHR ''3''])]"
  using display_limit_print_only [where c = no_flags and q = True and n = 2 and args = "[''seq'']" and w = seq_world
               and path = "''/tmp/cb.txt''" and captured = "[CHR ''1'', nl, CHR ''2'', nl, CHR ''3'']"]
  by (simp add: run_defs existing_def)

text \<open>
  Claim C10. Every record the program persists ends with a newline. For every run that
  captures its output and whose directory, open and write operations on the target file
  do not fail, whatever the clipboard step does afterwards and whatever the exit status:
  the target file then holds (behind its earlier content, in append mode) the header,
  the transformed text and a newline, and nothing behind them. Hence when such a run
  is followed by a run in append mode on the same file, the header of the second record
  stands right behind a newline: at the start of a fresh line.
\<close>

theorem record_ends_with_newline:
  "(\<not> helpFlag c \<and> \<not> showVersion c \<and> \<not> noTemp c
      \<and> executeCommand w args (stderr c) = Some (captured, None)
      \<and> mkdirAll w (targetFile c) = None
      \<and> openFile w (targetFile c) (appendMode c) = None
      \<and> writeString w (targetFile c) (header (clock w) args @ transform c captured @ [nl]) = None
      \<longrightarrow>
      file_after (main c args w) (targetFile c) =
        Some ((if appendMode c then existing w (targetFile c) else [])
              @ header (clock w) args @ transform c captured @ [nl]))
   \<and> (\<not> helpFlag c \<and> \<not> showVersion c \<and> \<not> noTemp c
      \<and> executeCommand w args (stderr c) = Some (captured, None)
      \<and> mkdirAll w (targetFile c) = None
      \<and> openFile w (targetFile c) (appendMode c) = None
      \<and> writeString w (targetFile c) (header (clock w) args @ transform c captured @ [nl]) = None
      \<and> \<not> helpFlag c2 \<and> \<not> showVersion c2 \<and> \<not> noTemp c2 \<and> appendMode c2
      \<and> targetFile c2 = targetFile c
      \<and> files w2 (targetFile c) = file_after (main c args w) (targetFile c)
      \<and> executeCommand w2 args2 (stderr c2) = Some (captured2, None)
      \<and> mkdirAll w2 (targetFile c2) = None
      \<and> openFile w2 (targetFile c2) True = None
      \<and> writeString w2 (targetFile c2) (header (clock w2) args2 @ transform c2 captured2 @ [nl]) = None
      \<longrightarrow>
      (\<exists>earlier. file_after (main c2 args2 w2) (targetFile c2) =
         Some (earlier @ [nl] @ header (clock w2) args2 @ transform c2 captured2 @ [nl])))"
proof (intro conjI impI)
  assume "\<not> helpFlag c \<and> \<not> showVersion c \<and> \<not> noTemp c
      \<and> executeCommand w args (stderr c) = Some (captured, None)
      \<and> mkdirAll w (targetFile c) = None
      \<and> openFile w (targetFile c) (appendMode c) = None
      \<and> writeString w (targetFile c) (header (clock w) args @ transform c captured @ [nl]) = None"
  then show "file_after (main c args w) (targetFile c) =
        Some ((if appendMode c then existing w (targetFile c) else [])
              @ header (clock w) args @ transform c captured @ [nl])"
    by (simp add: main_record_persisted)
next
  assume a: "\<not> helpFlag c \<and> \<not> showVersion c \<and> \<not> noTemp c
      \<and> executeCommand w args (stderr c) = Some (captured, None)
      \<and> mkdirAll w (targetFile c) = None
      \<and> openFile w (targetFile c) (appendMode c) = None
      \<and> writeString w (targetFile c) (header (clock w) args @ transform c captured @ [nl]) = None
      \<and> \<not> helpFlag c2 \<and> \<not> showVersion c2 \<and> \<not> noTemp c2 \<and> appendMode c2
      \<and> targetFile c2 = targetFile c
      \<and> files w2 (targetFile c) = file_after (main c args w) (targetFile c)
      \<and> executeCommand w2 args2 (stderr c2) = Some (captured2, None)
      \<and> mkdirAll w2 (targetFile c2) = None
      \<and> openFile w2 (targetFile c2) True = None
      \<and> writeString w2 (targetFile c2) (header (clock w2) args2 @ transform c2 captured2 @ [nl]) = None"
  then have first: "file_after (main c args w) (targetFile c) =
        Some ((if appendMode c then existing w (targetFile c) else [])
              @ header (clock w) args @ transform c captured @ [nl])"
    by (simp add: main_record_persisted)
  with a have "existing w2 (targetFile c2) =
      ((if appendMode c then existing w (targetFile c) else []) @ header (clock w) args
        @ transform c captured) @ [nl]"
    by (simp add: existing_def)
  moreover from a have "file_after (main c2 args2 w2) (targetFile c2) =
        Some (existing w2 (targetFile c2) @ header (clock w2) args2 @ transform c2 captured2 @ [nl])"
    using main_record_persisted[of c2 w2 args2 captured2] by auto
  ultimately show "\<exists>earlier. file_after (main c2 args2 w2) (targetFile c2) =
         Some (earlier @ [nl] @ header (clock w2) args2 @ transform c2 captured2 @ [nl])"
    by simp
qed

theorem record_ends_with_newline_witness:
  "exit_status (main no_flags [''echo'', ''hello''] no_helper_world) = Some 1
   \<and> file_after (main no_flags [''echo'', ''hello''] no_helper_world) ''/tmp/cb.txt''
     = Some (''[2025-11-17 19:41:29 '' @ [dq] @ ''echo hello'' @ [dq] @ '']:'' @ [nl] @ ''hello'' @ [nl, nl])
   \<and> file_after (main append_config [''true''] after_failed_world) ''/tmp/cb.txt''
     = Some (''[2025-11-17 19:41:29 '' @ [dq] @ ''echo hello'' @ [dq] @ '']:'' @ [nl] @ ''hello'' @ [nl, nl]
           @ ''[2025-11-17 19:41:29 '' @ [dq] @ ''true'' @ [dq] @ '']:'' @ [nl, nl])
   \<and> file_after (main append_config [''true''] second_world) ''/tmp/cb.txt''
     = Some (''[2025-11-17 19:41:29 '' @ [dq] @ ''echo hello'' @ [dq] @ '']:'' @ [nl] @ ''hello'' @ [nl, nl]
           @ ''[2025-11-17 19:41:29 '' @ [dq] @ ''true'' @ [dq] @ '']:'' @ [nl, nl])"
  using record_ends_with_newline [where c = no_flags and args = "[''echo'', ''hello'']" and w = no_helper_world
                and captured = "''hello'' @ [nl]" and ?c2.0 = append_config
                and ?w2.0 = after_failed_world and ?args2.0 = "[''true'']" and ?captured2.0 = "[]"]
        record_ends_with_newline [where c = no_flags and args = "[''echo'', ''hello'']" and w = demo_world
                and captured = "''hello'' @ [nl]" and ?c2.0 = append_config
                and ?w2.0 = second_world and ?args2.0 = "[''true'']" and ?captured2.0 = "[]"]
  by (simp add: run_defs second_world_def after_failed_world_def existing_def)

end
